theory Spec2Isabelle
  imports Main "HOL-Library.Multiset"
begin

section \<open>Python values\<close>

text \<open>
  The summarizer of \<^verbatim>\<open>storage/checkpoint_utils.py\<close> takes dictionaries typed
  \<^verbatim>\<open>dict[str, Any]\<close>: the values it inspects are strings, lists and dictionaries, and
  anything else only reaches \<^verbatim>\<open>str()\<close>. A dictionary is an association list read with
  \<open>map_of\<close>; a string is a list of characters, one per code point.
\<close>

datatype pyval =
    PNone
  | PBool bool
  | PInt int
  | PStr string
  | PList "pyval list"
  | PDict "(string \<times> pyval) list"

type_synonym pydict = "(string \<times> pyval) list"

text \<open>\<^verbatim>\<open>d.get(key, default)\<close>.\<close>

definition dict_get :: "pydict \<Rightarrow> string \<Rightarrow> pyval \<Rightarrow> pyval" where
  "dict_get d key dflt = (case map_of d key of None \<Rightarrow> dflt | Some v \<Rightarrow> v)"

section \<open>Exceptions\<close>

text \<open>
  The errors of the database driver that an insert into the bookmark table can raise
  (\<^verbatim>\<open>psycopg.errors\<close>), and the exceptions that leave the functions modelled here.
\<close>

datatype db_error = UniqueViolation | StringDataRightTruncation

datatype error = TypeError | ValueError string | PsycopgError db_error

section \<open>Checkpoint summarizer\<close>

subsection \<open>\<^verbatim>\<open>should_include_checkpoint\<close>\<close>

text \<open>
  \<^verbatim>\<open>source = checkpoint_metadata.get("source", "")\<close>, then
  \<^verbatim>\<open>return source in ("input", "loop", "fork")\<close>: membership in the tuple compares with
  \<^verbatim>\<open>==\<close>, which a value that is not a string never satisfies.
\<close>

definition should_include_checkpoint :: "pydict \<Rightarrow> bool" where
  "should_include_checkpoint checkpoint_metadata =
     (let source = dict_get checkpoint_metadata ''source'' (PStr '''')
      in source \<in> set [PStr ''input'', PStr ''loop'', PStr ''fork''])"

subsection \<open>\<^verbatim>\<open>extract_last_messages\<close>\<close>

text \<open>
  \<^verbatim>\<open>sep.join(parts)\<close>: the text of the parts with the separator between them when
  every part is a string, and \<open>TypeError\<close> otherwise. It is the one exception the
  function can raise.
\<close>

fun join :: "string \<Rightarrow> string list \<Rightarrow> string" where
  "join sep [] = []"
| "join sep [s] = s"
| "join sep (s # t # ts) = s @ sep @ join sep (t # ts)"

fun strings_of :: "pyval list \<Rightarrow> string list option" where
  "strings_of [] = Some []"
| "strings_of (PStr s # ps) = map_option ((#) s) (strings_of ps)"
| "strings_of (p # ps) = None"

definition str_join :: "string \<Rightarrow> pyval list \<Rightarrow> error + string" where
  "str_join sep parts =
     (case strings_of parts of None \<Rightarrow> Inl TypeError | Some ss \<Rightarrow> Inr (join sep ss))"

text \<open>
  The body of \<^verbatim>\<open>for block in content\<close> (lines 60 to 64): a dictionary whose
  \<^verbatim>\<open>type\<close> is the string \<^verbatim>\<open>text\<close> appends \<^verbatim>\<open>block.get("text", "")\<close>, whatever that
  value is; a string appends itself; any other block appends nothing.
\<close>

fun add_block :: "pyval list \<Rightarrow> pyval \<Rightarrow> pyval list" where
  "add_block text_parts (PDict block) =
     (if map_of block ''type'' = Some (PStr ''text'')
      then text_parts @ [dict_get block ''text'' (PStr '''')]
      else text_parts)"
| "add_block text_parts (PStr block) = text_parts @ [PStr block]"
| "add_block text_parts block = text_parts"

text \<open>
  Lines 56 to 68. The builtin \<^verbatim>\<open>str\<close> is not code of the repository: it is the
  parameter \<open>str\<close>, applied only to content that is neither a list nor a string.
\<close>

fun content_text :: "(pyval \<Rightarrow> string) \<Rightarrow> pyval \<Rightarrow> error + string" where
  "content_text str (PList content) = str_join '' '' (foldl add_block [] content)"
| "content_text str (PStr content) = Inr content"
| "content_text str content = Inr (str content)"

text \<open>
  The slice \<^verbatim>\<open>content[:k]\<close>: a negative \<open>k\<close> counts from the end, and the bound is
  clamped to the string.
\<close>

definition py_prefix :: "int \<Rightarrow> string \<Rightarrow> string" where
  "py_prefix k s = (if 0 \<le> k then take (nat k) s else take (nat (int (length s) + k)) s)"

text \<open>Lines 70 to 72.\<close>

definition truncate_text :: "int \<Rightarrow> string \<Rightarrow> string" where
  "truncate_text max_length content =
     (if int (length content) > max_length
      then py_prefix (max_length - 3) content @ ''...''
      else content)"

text \<open>What one iteration computes for \<^verbatim>\<open>content\<close> before it looks at the role.\<close>

definition message_text :: "(pyval \<Rightarrow> string) \<Rightarrow> int \<Rightarrow> pydict \<Rightarrow> error + string" where
  "message_text str max_length msg =
     (case content_text str (dict_get msg ''content'' (PStr '''')) of
        Inl e \<Rightarrow> Inl e
      | Inr content \<Rightarrow> Inr (truncate_text max_length content))"

text \<open>
  The loop \<^verbatim>\<open>for msg in reversed(messages)\<close> with its two variables and its
  \<^verbatim>\<open>break\<close>; the list given to \<open>scan\<close> is already reversed.
\<close>

fun scan ::
  "(pyval \<Rightarrow> string) \<Rightarrow> int \<Rightarrow> pydict list \<Rightarrow> string option \<Rightarrow> string option
   \<Rightarrow> error + (string option \<times> string option)" where
  "scan str max_length [] last_human last_ai = Inr (last_human, last_ai)"
| "scan str max_length (msg # rest) last_human last_ai =
     (let msg_type = dict_get msg ''type'' (PStr '''') in
      case message_text str max_length msg of
        Inl e \<Rightarrow> Inl e
      | Inr content \<Rightarrow>
          (let h = (if msg_type = PStr ''human'' \<and> last_human = None
                    then Some content else last_human);
               a = (if msg_type = PStr ''human'' \<and> last_human = None then last_ai
                    else if msg_type = PStr ''ai'' \<and> last_ai = None
                    then Some content else last_ai)
           in if h \<noteq> None \<and> a \<noteq> None then Inr (h, a)
              else scan str max_length rest h a))"

definition extract_last_messages ::
  "(pyval \<Rightarrow> string) \<Rightarrow> pydict list \<Rightarrow> int
   \<Rightarrow> error + (string option \<times> string option)" where
  "extract_last_messages str messages max_length =
     scan str max_length (rev messages) None None"

section \<open>Bookmark store\<close>

text \<open>
  \<^verbatim>\<open>storage/bookmarks.py\<close> keeps its bookmarks in one PostgreSQL table and every method
  is one statement in a transaction of its own. The table is the state, passed in and
  handed back; the connection is taken to succeed and the table to be the one
  \<^verbatim>\<open>initialize\<close> creates.
\<close>

type_synonym timestamp = int

text \<open>
  The dataclass \<^verbatim>\<open>Bookmark\<close>, which is also the shape of a row. The field \<^verbatim>\<open>id\<close> is
  called \<open>bookmark_id\<close>, as the local variable of \<^verbatim>\<open>save\<close> is. A timestamp counts
  microseconds, the resolution of both \<^verbatim>\<open>datetime\<close> and \<^verbatim>\<open>TIMESTAMP WITH TIME ZONE\<close>.
\<close>

record Bookmark =
  bookmark_id :: string
  thread_id :: string
  checkpoint_id :: string
  name :: "string option"
  description :: "string option"
  created_at :: timestamp

subsection \<open>The table of \<^verbatim>\<open>initialize\<close>\<close>

text \<open>
  A table is the list of its rows in the order a scan without \<^verbatim>\<open>ORDER BY\<close> meets them.
  SQL leaves that order to the engine, so an insert takes the position of the new row
  from outside.

  \<^verbatim>\<open>VARCHAR(n)\<close>: storing a longer string is an error, unless the excess is all spaces,
  which are cut off.
\<close>

definition varchar :: "nat \<Rightarrow> string \<Rightarrow> db_error + string" where
  "varchar n s =
     (if length s \<le> n then Inr s
      else if list_all (\<lambda>c. c = CHR '' '') (drop n s) then Inr (take n s)
      else Inl StringDataRightTruncation)"

text \<open>
  The column types: \<^verbatim>\<open>id VARCHAR(36)\<close>, \<^verbatim>\<open>thread_id VARCHAR(255)\<close>,
  \<^verbatim>\<open>checkpoint_id VARCHAR(255)\<close>, \<^verbatim>\<open>name VARCHAR(255)\<close> (nullable), \<^verbatim>\<open>description TEXT\<close>.
\<close>

definition store_row :: "Bookmark \<Rightarrow> db_error + Bookmark" where
  "store_row r =
     (case varchar 36 (bookmark_id r) of Inl e \<Rightarrow> Inl e | Inr i \<Rightarrow>
      case varchar 255 (thread_id r) of Inl e \<Rightarrow> Inl e | Inr t \<Rightarrow>
      case varchar 255 (checkpoint_id r) of Inl e \<Rightarrow> Inl e | Inr c \<Rightarrow>
      case (case name r of None \<Rightarrow> Inr None
            | Some s \<Rightarrow> (case varchar 255 s of Inl e \<Rightarrow> Inl e | Inr s' \<Rightarrow> Inr (Some s'))) of
        Inl e \<Rightarrow> Inl e
      | Inr n \<Rightarrow> Inr (r\<lparr>bookmark_id := i, thread_id := t, checkpoint_id := c, name := n\<rparr>))"

text \<open>
  \<^verbatim>\<open>INSERT INTO conversation_bookmarks ... VALUES ...\<close> against \<^verbatim>\<open>id ... PRIMARY KEY\<close> and
  \<^verbatim>\<open>CONSTRAINT unique_bookmark_name UNIQUE (name)\<close>; a unique constraint lets any
  number of rows have a null name.
\<close>

definition db_insert :: "nat \<Rightarrow> Bookmark \<Rightarrow> Bookmark list \<Rightarrow> db_error + Bookmark list" where
  "db_insert k r tbl =
     (case store_row r of
        Inl e \<Rightarrow> Inl e
      | Inr row \<Rightarrow>
          if bookmark_id row \<in> set (map bookmark_id tbl) then Inl UniqueViolation
          else if name row \<noteq> None \<and> name row \<in> set (map name tbl) then Inl UniqueViolation
          else Inr (take k tbl @ row # drop k tbl))"

text \<open>The predicate \<^verbatim>\<open>WHERE name = %s OR id = %s\<close>, both parameters the identifier.\<close>

definition matches :: "string \<Rightarrow> Bookmark \<Rightarrow> bool" where
  "matches identifier r = (name r = Some identifier \<or> bookmark_id r = identifier)"

text \<open>\<^verbatim>\<open>SELECT ... WHERE name = %s OR id = %s LIMIT 1\<close>: the rows it returns.\<close>

definition db_select_one :: "string \<Rightarrow> Bookmark list \<Rightarrow> Bookmark list" where
  "db_select_one identifier tbl = take 1 (filter (matches identifier) tbl)"

text \<open>
  \<^verbatim>\<open>DELETE FROM ... WHERE name = %s OR id = %s\<close>: the number of rows it removed
  (\<^verbatim>\<open>cur.rowcount\<close>) and the table it leaves.
\<close>

definition db_delete :: "string \<Rightarrow> Bookmark list \<Rightarrow> nat \<times> Bookmark list" where
  "db_delete identifier tbl =
     (length (filter (matches identifier) tbl),
      filter (\<lambda>r. \<not> matches identifier r) tbl)"


subsection \<open>\<^verbatim>\<open>BookmarkManager\<close>\<close>

text \<open>
  What \<^verbatim>\<open>save\<close> draws from outside: \<^verbatim>\<open>str(uuid4())\<close>, \<^verbatim>\<open>datetime.now(timezone.utc)\<close>,
  and the position the engine gives the new row.
\<close>

record env =
  uuid4 :: string
  now :: timestamp
  slot :: nat

text \<open>The message \<^verbatim>\<open>f"Bookmark with name '{name}' already exists"\<close>.\<close>

definition conflict_message :: "string option \<Rightarrow> string" where
  "conflict_message name' =
     ''Bookmark with name '' @ CHR 0x27 # (case name' of None \<Rightarrow> ''None'' | Some n \<Rightarrow> n)
       @ CHR 0x27 # '' already exists''"

text \<open>
  \<^verbatim>\<open>save\<close>: one insert; \<^verbatim>\<open>UniqueViolation\<close> becomes \<^verbatim>\<open>ValueError\<close>, any other error of the
  driver passes through, and a failed insert is rolled back. The result is the outcome
  and the table afterwards.
\<close>

definition save ::
  "env \<Rightarrow> Bookmark list \<Rightarrow> string \<Rightarrow> string \<Rightarrow> string option \<Rightarrow> string option
   \<Rightarrow> (error + Bookmark) \<times> Bookmark list" where
  "save e tbl thread_id' checkpoint_id' name' description' =
     (let bookmark_id' = uuid4 e;
          created_at' = now e;
          bookmark = \<lparr>bookmark_id = bookmark_id', thread_id = thread_id',
                      checkpoint_id = checkpoint_id', name = name',
                      description = description', created_at = created_at'\<rparr>
      in case db_insert (slot e) bookmark tbl of
           Inl UniqueViolation \<Rightarrow> (Inl (ValueError (conflict_message name')), tbl)
         | Inl err \<Rightarrow> (Inl (PsycopgError err), tbl)
         | Inr tbl' \<Rightarrow> (Inr bookmark, tbl'))"

text \<open>\<^verbatim>\<open>get\<close>: \<^verbatim>\<open>fetchone\<close> on the rows of the select.\<close>

definition get :: "Bookmark list \<Rightarrow> string \<Rightarrow> Bookmark option" where
  "get tbl identifier =
     (case db_select_one identifier tbl of [] \<Rightarrow> None | row # rest \<Rightarrow> Some row)"


text \<open>\<^verbatim>\<open>delete\<close>: \<^verbatim>\<open>deleted = cur.rowcount > 0\<close>.\<close>

definition delete :: "Bookmark list \<Rightarrow> string \<Rightarrow> bool \<times> Bookmark list" where
  "delete tbl identifier =
     (let (rowcount, tbl') = db_delete identifier tbl in (rowcount > 0, tbl'))"

section \<open>Notions used to state the properties\<close>

subsection \<open>Content blocks\<close>






subsection \<open>Roles\<close>





subsection \<open>Rows and tables\<close>

text \<open>The bookmark \<^verbatim>\<open>save\<close> builds before it inserts, and returns when the insert succeeds.\<close>

definition new_bookmark ::
  "env \<Rightarrow> string \<Rightarrow> string \<Rightarrow> string option \<Rightarrow> string option \<Rightarrow> Bookmark" where
  "new_bookmark e t c n d =
     \<lparr>bookmark_id = uuid4 e, thread_id = t, checkpoint_id = c, name = n,
      description = d, created_at = now e\<rparr>"

text \<open>A row that fits the column types.\<close>

definition row_ok :: "Bookmark \<Rightarrow> bool" where
  "row_ok r =
     (length (bookmark_id r) \<le> 36 \<and> length (thread_id r) \<le> 255
      \<and> length (checkpoint_id r) \<le> 255
      \<and> (case name r of None \<Rightarrow> True | Some n \<Rightarrow> length n \<le> 255))"

text \<open>
  What the schema keeps true of the table: every row fits its columns, no two rows
  share an id, and no two rows share a name that is not null.
\<close>

definition table_ok :: "Bookmark list \<Rightarrow> bool" where
  "table_ok tbl =
     (list_all row_ok tbl \<and> distinct (map bookmark_id tbl)
      \<and> distinct (filter (\<lambda>n. n \<noteq> None) (map name tbl)))"

subsection \<open>Example data\<close>

text \<open>
  Two identifiers of the shape \<^verbatim>\<open>str(uuid4())\<close> has, and two bookmarks; the second
  one is named with the id of the first.
\<close>

definition uuid_a :: string where
  "uuid_a = ''123e4567-e89b-42d3-a456-426614174000''"

definition uuid_b :: string where
  "uuid_b = ''9b2f0c1e-7a3d-4e5f-8a6b-0c1d2e3f4a5b''"

definition env_a :: env where
  "env_a = \<lparr>uuid4 = uuid_a, now = 1000, slot = 0\<rparr>"

definition env_b :: env where
  "env_b = \<lparr>uuid4 = uuid_b, now = 2000, slot = 1\<rparr>"

definition first_bookmark :: Bookmark where
  "first_bookmark = new_bookmark env_a ''thread-1'' ''ckpt-1'' None None"

definition second_bookmark :: Bookmark where
  "second_bookmark =
     new_bookmark env_b ''thread-2'' ''ckpt-2'' (Some uuid_a) (Some ''resume here'')"

section \<open>Properties of the summarizer\<close>

text \<open>
  Claim C5. For every metadata mapping, \<open>should_include_checkpoint\<close> is true exactly when
  the mapping has a \<open>source\<close> field and that field is one of the three strings
  \<open>input\<close>, \<open>loop\<close>, \<open>fork\<close>. A mapping without the field is excluded, and so is any other
  value, the string \<open>tool\<close> for one.
\<close>

theorem should_include_checkpoint_iff:
  "should_include_checkpoint md =
     (map_of md ''source'' = Some (PStr ''input'')
      \<or> map_of md ''source'' = Some (PStr ''loop'')
      \<or> map_of md ''source'' = Some (PStr ''fork''))
   \<and> (map_of md ''source'' = None \<longrightarrow> \<not> should_include_checkpoint md)
   \<and> \<not> should_include_checkpoint [(''source'', PStr ''tool'')]
   \<and> \<not> should_include_checkpoint []
   \<and> should_include_checkpoint [(''source'', PStr ''input'')]"
  by (auto simp: should_include_checkpoint_def dict_get_def split: option.splits)

theorem should_include_checkpoint_iff_witness:
  "should_include_checkpoint [(''step'', PInt 3), (''source'', PStr ''loop'')]
   \<and> \<not> should_include_checkpoint [(''step'', PInt 3)]
   \<and> \<not> should_include_checkpoint [(''source'', PInt 1)]"
  using should_include_checkpoint_iff [of "[(''step'', PInt 3), (''source'', PStr ''loop'')]"]
    should_include_checkpoint_iff [of "[(''step'', PInt 3)]"]
    should_include_checkpoint_iff [of "[(''source'', PInt 1)]"]
  by simp

subsection \<open>Joining the blocks of a message\<close>










subsection \<open>Truncation\<close>

lemma truncate_text_within:
  "int (length content) \<le> max_length \<Longrightarrow> truncate_text max_length content = content"
  by (simp add: truncate_text_def)

lemma truncate_text_over:
  assumes "3 \<le> max_length" and "max_length < int (length content)"
  shows "truncate_text max_length content = take (nat (max_length - 3)) content @ ''...''
    \<and> int (length (truncate_text max_length content)) = max_length"
  using assms by (auto simp: truncate_text_def py_prefix_def)

text \<open>
  Claim C3. A text longer than \<open>max_length\<close> should come back as exactly \<open>max_length\<close>
  characters. For \<open>max_length = 2\<close> the slice bound \<open>max_length - 3\<close> is negative and
  counts from the end: the five characters of \<open>hello\<close> come back as seven.
\<close>

theorem truncation_exceeds_small_max_length:
  "extract_last_messages (\<lambda>v. ''None'')
     [[(''type'', PStr ''human''), (''content'', PStr ''hello'')]] 2
     = Inr (Some ''hell...'', None)
   \<and> int (length ''hell...'') > 2"
  by (simp add: extract_last_messages_def message_text_def dict_get_def
      truncate_text_def py_prefix_def)

subsection \<open>The scan\<close>












section \<open>Properties of the bookmark store\<close>

subsection \<open>Inserting a row\<close>

lemma set_insert_at: "set (take k xs @ x # drop k xs) = insert x (set xs)"
proof -
  have "set xs = set (take k xs) \<union> set (drop k xs)"
    by (metis append_take_drop_id set_append)
  then show ?thesis by auto
qed

lemma mset_insert_at: "mset (take k xs @ x # drop k xs) = add_mset x (mset xs)"
proof -
  have "mset xs = mset (take k xs) + mset (drop k xs)"
    by (metis append_take_drop_id mset_append)
  then show ?thesis by simp
qed

lemma varchar_fits: "length s \<le> n \<Longrightarrow> varchar n s = Inr s"
  by (simp add: varchar_def)

lemma store_row_ok: "row_ok r \<Longrightarrow> store_row r = Inr r"
  by (auto simp: row_ok_def store_row_def varchar_fits split: option.splits)

lemma db_insert_ok:
  assumes "row_ok r"
  shows "db_insert k r tbl =
           (if bookmark_id r \<in> set (map bookmark_id tbl) then Inl UniqueViolation
            else if name r \<noteq> None \<and> name r \<in> set (map name tbl) then Inl UniqueViolation
            else Inr (take k tbl @ r # drop k tbl))"
  by (simp add: db_insert_def store_row_ok [OF assms])

lemma save_new_bookmark:
  "save e tbl t c n d =
     (case db_insert (slot e) (new_bookmark e t c n d) tbl of
        Inl UniqueViolation \<Rightarrow> (Inl (ValueError (conflict_message n)), tbl)
      | Inl err \<Rightarrow> (Inl (PsycopgError err), tbl)
      | Inr tbl' \<Rightarrow> (Inr (new_bookmark e t c n d), tbl'))"
  unfolding save_def new_bookmark_def Let_def ..

lemma new_bookmark_sel [simp]:
  "bookmark_id (new_bookmark e t c n d) = uuid4 e"
  "thread_id (new_bookmark e t c n d) = t"
  "checkpoint_id (new_bookmark e t c n d) = c"
  "name (new_bookmark e t c n d) = n"
  "description (new_bookmark e t c n d) = d"
  "created_at (new_bookmark e t c n d) = now e"
  by (simp_all add: new_bookmark_def)



lemmas example_defs =
  uuid_a_def uuid_b_def env_a_def env_b_def first_bookmark_def second_bookmark_def
  new_bookmark_def

lemmas store_defs =
  save_def db_insert_def store_row_def varchar_def get_def db_select_one_def matches_def
  delete_def db_delete_def Let_def

subsection \<open>The schema's invariant\<close>

lemma varchar_length: "varchar n s = Inr s' \<Longrightarrow> length s' \<le> n"
  by (auto simp: varchar_def split: if_splits)

lemma store_row_row_ok: "store_row r = Inr row \<Longrightarrow> row_ok row"
  by (auto simp: store_row_def row_ok_def split: sum.splits option.splits
      dest: varchar_length)

lemma distinct_insert_at:
  "distinct (filter P (map f (take k xs @ x # drop k xs)))
     = distinct (filter P (map f (x # xs)))"
proof (rule mset_eq_imp_distinct_iff)
  have "mset (take k xs @ x # drop k xs) = mset (x # xs)"
    by (simp only: mset_insert_at mset.simps)
  then have "mset (map f (take k xs @ x # drop k xs)) = mset (map f (x # xs))"
    by (simp only: mset_map)
  then show "mset (filter P (map f (take k xs @ x # drop k xs)))
     = mset (filter P (map f (x # xs)))"
    by (simp only: mset_filter)
qed

lemma table_ok_empty: "table_ok []"
  by (simp add: table_ok_def)

lemma db_insert_preserves_table_ok:
  assumes "table_ok tbl" and "db_insert k r tbl = Inr tbl'"
  shows "table_ok tbl'"
proof -
  from assms(2) obtain row where st: "store_row r = Inr row"
    and id: "bookmark_id row \<notin> set (map bookmark_id tbl)"
    and nm: "name row = None \<or> name row \<notin> set (map name tbl)"
    and tbl': "tbl' = take k tbl @ row # drop k tbl"
    by (auto simp: db_insert_def split: sum.splits if_splits)
  have ok: "row_ok row" by (rule store_row_row_ok [OF st])
  have "list_all row_ok tbl'"
    using assms(1) ok by (simp add: table_ok_def list_all_iff tbl' set_insert_at del: set_append)
  moreover have "distinct (map bookmark_id tbl')"
    using distinct_insert_at [of "\<lambda>x. True" bookmark_id k tbl row] assms(1) id
    by (simp add: tbl' table_ok_def)
  moreover have "distinct (filter (\<lambda>n. n \<noteq> None) (map name tbl'))"
    using distinct_insert_at [of "\<lambda>n. n \<noteq> None" name k tbl row] assms(1) nm
    by (auto simp: tbl' table_ok_def)
  ultimately show ?thesis by (simp add: table_ok_def)
qed

lemma save_preserves_table_ok:
  assumes "table_ok tbl"
  shows "table_ok (snd (save e tbl t c n d))"
proof (cases "db_insert (slot e) (new_bookmark e t c n d) tbl")
  case (Inl err)
  then show ?thesis using assms by (cases err) (simp_all add: save_new_bookmark)
next
  case (Inr tbl')
  then show ?thesis
    using db_insert_preserves_table_ok [OF assms Inr] by (simp add: save_new_bookmark)
qed

subsection \<open>Looking a bookmark up\<close>

lemma get_find: "get tbl i = find (matches i) tbl"
  by (induction tbl) (auto simp: get_def db_select_one_def)


lemma get_unique:
  assumes "r \<in> set tbl" and "matches i r" and "\<forall>r'\<in>set tbl. matches i r' \<longrightarrow> r' = r"
  shows "get tbl i = Some r"
proof -
  have "find (matches i) tbl \<noteq> None" using assms(1,2) by (auto simp: find_None_iff)
  then obtain r' where f: "find (matches i) tbl = Some r'" by auto
  then have "r' \<in> set tbl \<and> matches i r'"
    by (auto simp: find_Some_iff)
  then have "r' = r" using assms(3) by blast
  then show ?thesis using f by (simp add: get_find)
qed

lemma get_in_set: "get tbl i = Some r \<Longrightarrow> r \<in> set tbl \<and> matches i r"
  by (auto simp: get_find find_Some_iff)

text \<open>
  When no row has the name as its id, \<open>get\<close> after \<open>save\<close> does return the saved
  bookmark, wherever the engine puts the row.
\<close>

lemma save_then_get:
  assumes ok: "row_ok (new_bookmark e t c (Some n) d)"
    and s: "save e tbl t c (Some n) d = (Inr b, tbl')"
    and no_id: "\<forall>r\<in>set tbl. bookmark_id r \<noteq> n"
  shows "get tbl' n = Some b \<and> b = new_bookmark e t c (Some n) d"
proof -
  let ?b = "new_bookmark e t c (Some n) d"
  from s have ins: "db_insert (slot e) ?b tbl = Inr tbl'" and b: "b = ?b"
    by (auto simp: save_new_bookmark split: sum.splits db_error.splits)
  from ins have fresh: "Some n \<notin> set (map name tbl)"
    and tbl': "tbl' = take (slot e) tbl @ ?b # drop (slot e) tbl"
    by (auto simp: db_insert_ok [OF ok] split: if_splits)
  have set': "set tbl' = insert ?b (set tbl)"
    unfolding tbl' by (rule set_insert_at)
  have m: "matches n ?b" by (simp add: matches_def)
  have "\<forall>r'\<in>set tbl'. matches n r' \<longrightarrow> r' = ?b"
    using fresh no_id by (force simp: set' matches_def image_iff)
  then have "get tbl' n = Some ?b"
    using m by (intro get_unique) (simp_all add: set')
  then show ?thesis using b by simp
qed

text \<open>
  Claim C1. After \<open>save\<close> with a name, \<open>get\<close> of that name should return the bookmark
  just saved. The query of \<open>get\<close> matches the name or the id and takes one row, with
  nothing that prefers the name: when the name given to the second bookmark is the id
  of the first, \<open>get\<close> returns the first bookmark, another thread's and without a name.
  The comment above the query says "Try to find by name first, then by ID".
\<close>

theorem get_after_save_returns_other_row:
  "save env_a [] ''thread-1'' ''ckpt-1'' None None = (Inr first_bookmark, [first_bookmark])
   \<and> save env_b [first_bookmark] ''thread-2'' ''ckpt-2'' (Some uuid_a) (Some ''resume here'')
       = (Inr second_bookmark, [first_bookmark, second_bookmark])
   \<and> get [first_bookmark, second_bookmark] uuid_a = Some first_bookmark
   \<and> thread_id first_bookmark = ''thread-1''
   \<and> name first_bookmark = None"
  by (simp add: example_defs store_defs)

subsection \<open>Name conflicts\<close>




subsection \<open>What a successful save returns\<close>

lemma varchar_same: "varchar n s = Inr s' \<Longrightarrow> length s \<le> n \<Longrightarrow> s' = s"
  by (simp add: varchar_def)

lemma store_row_fields:
  assumes "store_row r = Inr row"
  shows "created_at row = created_at r \<and> description row = description r
     \<and> (length (bookmark_id r) \<le> 36 \<longrightarrow> bookmark_id row = bookmark_id r)"
  using assms
  by (auto simp: store_row_def split: sum.splits option.splits dest: varchar_same)

text \<open>
  Claim C9. When \<open>save\<close> succeeds, the bookmark it returns carries the arguments, the
  identifier drawn from \<open>uuid4\<close> and the timestamp read from the clock; that identifier
  is the id of no row already in the table; and the table afterwards is the old one
  with one new row, whose id and \<open>created_at\<close> are the ones returned.
\<close>

theorem save_returns_stored_values:
  assumes "save e tbl t c n d = (Inr b, tbl')" and "length (uuid4 e) = 36"
  shows "b = new_bookmark e t c n d
     \<and> bookmark_id b = uuid4 e \<and> created_at b = now e
     \<and> uuid4 e \<notin> set (map bookmark_id tbl)
     \<and> (\<exists>row. tbl' = take (slot e) tbl @ row # drop (slot e) tbl
           \<and> bookmark_id row = bookmark_id b \<and> created_at row = created_at b)"
proof -
  let ?b = "new_bookmark e t c n d"
  from assms(1) have ins: "db_insert (slot e) ?b tbl = Inr tbl'" and b: "b = ?b"
    by (auto simp: save_new_bookmark split: sum.splits db_error.splits)
  from ins obtain row where st: "store_row ?b = Inr row"
    and fresh: "bookmark_id row \<notin> set (map bookmark_id tbl)"
    and tbl': "tbl' = take (slot e) tbl @ row # drop (slot e) tbl"
    by (auto simp: db_insert_def split: sum.splits if_splits)
  from store_row_fields [OF st] assms(2)
  have f: "created_at row = now e" "bookmark_id row = uuid4 e" by simp_all
  show ?thesis using b f fresh tbl' by auto
qed

theorem save_returns_stored_values_witness:
  "save env_b [first_bookmark] ''thread-2'' ''ckpt-2'' (Some uuid_a) (Some ''resume here'')
       = (Inr second_bookmark, [first_bookmark, second_bookmark])
   \<and> length (uuid4 env_b) = 36
   \<and> bookmark_id second_bookmark = uuid_b \<and> created_at second_bookmark = 2000
   \<and> uuid_b \<notin> set (map bookmark_id [first_bookmark])"
proof -
  have s: "save env_b [first_bookmark] ''thread-2'' ''ckpt-2'' (Some uuid_a) (Some ''resume here'')
       = (Inr second_bookmark, [first_bookmark, second_bookmark])"
    by (simp add: example_defs store_defs)
  have len: "length (uuid4 env_b) = 36" by (simp add: example_defs)
  from save_returns_stored_values [OF s len] s len show ?thesis
    by (simp add: env_b_def)
qed

subsection \<open>Absence and deletion\<close>

lemma delete_eq:
  "delete tbl i = ((\<exists>r\<in>set tbl. matches i r), filter (\<lambda>r. \<not> matches i r) tbl)"
  by (auto simp: delete_def db_delete_def filter_empty_conv)

lemma delete_preserves_table_ok:
  assumes "table_ok tbl"
  shows "table_ok (snd (delete tbl i))"
proof -
  let ?keep = "\<lambda>r. \<not> matches i r"
  have eq: "filter (\<lambda>n. n \<noteq> None) (map name (filter ?keep tbl))
          = map name (filter ?keep (filter (\<lambda>r. name r \<noteq> None) tbl))"
    by (induction tbl) auto
  have "distinct (map name (filter (\<lambda>r. name r \<noteq> None) tbl))"
    using assms by (simp add: table_ok_def filter_map comp_def)
  then have "distinct (map name (filter ?keep (filter (\<lambda>r. name r \<noteq> None) tbl)))"
    by (rule distinct_map_filter)
  then have "distinct (filter (\<lambda>n. n \<noteq> None) (map name (filter ?keep tbl)))"
    by (simp only: eq)
  then show ?thesis
    using assms by (simp add: delete_eq table_ok_def list_all_iff distinct_map_filter)
qed



lemma two_members_length:
  assumes "x \<in> set xs" and "y \<in> set xs" and "x \<noteq> y"
  shows "2 \<le> length xs"
proof -
  have "card {x, y} \<le> card (set xs)" using assms by (intro card_mono) auto
  also have "\<dots> \<le> length xs" by (rule card_length)
  finally show ?thesis using assms(3) by simp
qed

text \<open>
  Claim C10. \<open>delete\<close> removes every row whose name or id is the identifier and
  returns whether there was one, while the select of \<open>get\<close> returns at most one row,
  a matching one when there is any. When one row has the identifier as its name and a
  different row has it as its id, one \<open>delete\<close> removes both and returns \<open>True\<close>.
\<close>

theorem delete_removes_every_match:
  "fst (delete tbl i) = (\<exists>r\<in>set tbl. matches i r)
   \<and> snd (delete tbl i) = filter (\<lambda>r. \<not> matches i r) tbl
   \<and> length (db_select_one i tbl) \<le> 1
   \<and> (case get tbl i of None \<Rightarrow> \<forall>r\<in>set tbl. \<not> matches i r
       | Some r \<Rightarrow> r \<in> set tbl \<and> matches i r)
   \<and> (r1 \<in> set tbl \<and> r2 \<in> set tbl \<and> r1 \<noteq> r2 \<and> name r1 = Some i \<and> bookmark_id r2 = i \<longrightarrow>
        fst (delete tbl i)
        \<and> r1 \<notin> set (snd (delete tbl i)) \<and> r2 \<notin> set (snd (delete tbl i))
        \<and> length (snd (delete tbl i)) + 2 \<le> length tbl)"
proof (intro conjI impI)
  show "fst (delete tbl i) = (\<exists>r\<in>set tbl. matches i r)" by (simp add: delete_eq)
  show "snd (delete tbl i) = filter (\<lambda>r. \<not> matches i r) tbl" by (simp add: delete_eq)
  show "length (db_select_one i tbl) \<le> 1" by (simp add: db_select_one_def)
  show "case get tbl i of None \<Rightarrow> \<forall>r\<in>set tbl. \<not> matches i r
       | Some r \<Rightarrow> r \<in> set tbl \<and> matches i r"
    by (auto simp: get_find find_None_iff find_Some_iff split: option.splits)
next
  assume a: "r1 \<in> set tbl \<and> r2 \<in> set tbl \<and> r1 \<noteq> r2 \<and> name r1 = Some i \<and> bookmark_id r2 = i"
  then have m: "matches i r1" "matches i r2" by (simp_all add: matches_def)
  show "fst (delete tbl i)" using a m by (auto simp: delete_eq)
  show "r1 \<notin> set (snd (delete tbl i))" using m by (simp add: delete_eq)
  show "r2 \<notin> set (snd (delete tbl i))" using m by (simp add: delete_eq)
  have "2 \<le> length (filter (matches i) tbl)"
    using a m by (intro two_members_length [of r1 _ r2]) simp_all
  moreover have "length tbl = length (filter (matches i) tbl)
      + length (filter (\<lambda>r. \<not> matches i r) tbl)"
    by (rule sum_length_filter_compl [symmetric])
  ultimately show "length (snd (delete tbl i)) + 2 \<le> length tbl"
    by (simp add: delete_eq)
qed

theorem delete_removes_every_match_witness:
  "delete [first_bookmark, second_bookmark] uuid_a = (True, [])
   \<and> get [first_bookmark, second_bookmark] uuid_a = Some first_bookmark
   \<and> name second_bookmark = Some uuid_a \<and> bookmark_id first_bookmark = uuid_a
   \<and> first_bookmark \<noteq> second_bookmark
   \<and> length (snd (delete [first_bookmark, second_bookmark] uuid_a)) + 2
       \<le> length [first_bookmark, second_bookmark]"
proof -
  have a: "second_bookmark \<in> set [first_bookmark, second_bookmark]
      \<and> first_bookmark \<in> set [first_bookmark, second_bookmark]
      \<and> second_bookmark \<noteq> first_bookmark
      \<and> name second_bookmark = Some uuid_a \<and> bookmark_id first_bookmark = uuid_a"
    by (simp add: example_defs)
  have d: "delete [first_bookmark, second_bookmark] uuid_a = (True, [])"
    by (simp add: example_defs store_defs)
  have g: "get [first_bookmark, second_bookmark] uuid_a = Some first_bookmark"
    by (simp add: example_defs store_defs)
  from delete_removes_every_match
    [of "[first_bookmark, second_bookmark]" uuid_a second_bookmark first_bookmark] a d g
  show ?thesis by auto
qed

subsection \<open>Listing\<close>






end
